theory Spec2Isabelle
  imports Main "HOL-Library.Sublist"
begin

section \<open>The resilient upstream-call layer of the Amadeus MCP server\<close>

text \<open>
  The development embeds the three functions of the repository that wrap an upstream
  call: \<open>withTimeout\<close> and \<open>makeApiCallWithRetry\<close> of \<^verbatim>\<open>src/tools.ts\<close>, and
  \<open>cachedApiCall\<close> of \<^verbatim>\<open>src/index.ts\<close> (in its two versions: the plain one, and the one
  that races the call against a timer). Logging (\<^verbatim>\<open>console.error\<close>, \<^verbatim>\<open>console.log\<close>) is left out.
\<close>

subsection \<open>JavaScript values and failures\<close>

text \<open>
  The values a thunk settles with, as far as \<^verbatim>\<open>if (cachedResponse)\<close> tells them apart.
  An object is opaque (the cache is built with \<^verbatim>\<open>useClones: false\<close>); it is
  represented here by its JSON text.
\<close>

datatype js_value =
    JUndefined
  | JNull
  | JBool bool
  | JNum int
  | JStr string
  | JObj string

fun truthy :: "js_value \<Rightarrow> bool" where
  "truthy JUndefined = False"
| "truthy JNull = False"
| "truthy (JBool b) = b"
| "truthy (JNum n) = (n \<noteq> 0)"
| "truthy (JStr s) = (s \<noteq> [])"
| "truthy (JObj _) = True"

text \<open>
  A thrown value, as far as the retry classifier reads it: \<^verbatim>\<open>error.response\<close> (with its
  \<^verbatim>\<open>statusCode\<close>), \<^verbatim>\<open>error.message\<close> and \<^verbatim>\<open>error.code\<close>. A field that is
  \<^verbatim>\<open>undefined\<close> is \<open>None\<close>. The thrown value is an object or a primitive with
  properties (a primitive has none of the three fields), the message and the code are
  strings, the status code is an integer.
\<close>

record js_response =
  statusCode :: "int option"

record js_error =
  response :: "js_response option"
  message :: "string option"
  code :: "string option"

text \<open>\<^verbatim>\<open>new Error(msg)\<close>: a message and neither \<^verbatim>\<open>response\<close> nor \<^verbatim>\<open>code\<close>.\<close>

definition js_Error :: "string \<Rightarrow> js_error" where
  "js_Error msg = \<lparr>response = None, message = Some msg, code = None\<rparr>"

subsection \<open>Strings\<close>

text \<open>\<^verbatim>\<open>String.prototype.startsWith\<close> and \<^verbatim>\<open>String.prototype.includes\<close>.\<close>

fun str_startsWith :: "string \<Rightarrow> string \<Rightarrow> bool" where
  "str_startsWith s [] = True"
| "str_startsWith [] (c # t) = False"
| "str_startsWith (a # s) (c # t) = (a = c \<and> str_startsWith s t)"

fun str_includes :: "string \<Rightarrow> string \<Rightarrow> bool" where
  "str_includes [] t = (t = [])"
| "str_includes (a # s) t = (str_startsWith (a # s) t \<or> str_includes s t)"

text \<open>The decimal text of a non-negative integer, as a template literal prints it.\<close>

definition digit_char :: "nat \<Rightarrow> char" where
  "digit_char d = ''0123456789'' ! d"

fun string_of_nat :: "nat \<Rightarrow> string" where
  "string_of_nat n =
     (if n < 10 then [digit_char n]
      else string_of_nat (n div 10) @ [digit_char (n mod 10)])"

declare string_of_nat.simps [simp del]

subsection \<open>Promises\<close>

text \<open>
  What one invocation of a thunk does: it fulfils, it rejects, or it is still pending
  when the timer armed for the attempt fires (where no timer is armed: it never settles).
  A thunk is a function from the number of invocations made so far to the outcome of the
  next one, so that successive attempts may differ.
\<close>

datatype 'a outcome =
    Fulfils 'a
  | Rejects js_error
  | Pending

subsection \<open>The cache store\<close>

text \<open>
  Modelled from the spec: the cache store is an instance of the \<^verbatim>\<open>node-cache\<close> package,
  whose \<^verbatim>\<open>get\<close> and \<^verbatim>\<open>set\<close> are not part of the sources. Following sections 3 and 4.1 of
  the specification, an entry holds a value and an expiration time, \<open>get\<close> returns the
  stored value iff the entry is present and unexpired (an entry is expired once
  \<open>now \<ge> expiresAt\<close>), and \<open>put\<close> overwrites the entry of its key with
  \<open>expiresAt = now + ttl\<close>. The key of an entry is the key it is stored under.
\<close>

record cache_entry =
  val :: js_value
  expiresAt :: nat

type_synonym cache_store = "string \<rightharpoonup> cache_entry"

text \<open>Modelled from the spec: an entry is expired once \<open>now \<ge> expiresAt\<close> (section 3).\<close>

definition expired :: "nat \<Rightarrow> cache_entry \<Rightarrow> bool" where
  "expired now e = (now \<ge> expiresAt e)"

text \<open>
  Modelled from the spec: \<open>get(key)\<close> of section 4.1, the stored value iff present and
  unexpired, absent otherwise; never an error.
\<close>

definition cache_get :: "cache_store \<Rightarrow> nat \<Rightarrow> string \<Rightarrow> js_value option" where
  "cache_get st now key =
     (case st key of
        None \<Rightarrow> None
      | Some e \<Rightarrow> if expired now e then None else Some (val e))"

text \<open>
  Modelled from the spec: \<open>put(key, value, ttl)\<close> of section 4.1, which overwrites the
  entry of the key with \<open>expiresAt = now + ttl\<close>.
\<close>

definition cache_set :: "cache_store \<Rightarrow> nat \<Rightarrow> string \<Rightarrow> js_value \<Rightarrow> nat \<Rightarrow> cache_store" where
  "cache_set st now key v ttl = st(key \<mapsto> \<lparr>val = v, expiresAt = now + ttl\<rparr>)"

text \<open>In TypeScript the absent result of \<^verbatim>\<open>cache.get\<close> is \<^verbatim>\<open>undefined\<close>.\<close>

definition or_undefined :: "js_value option \<Rightarrow> js_value" where
  "or_undefined r = (case r of None \<Rightarrow> JUndefined | Some v \<Rightarrow> v)"

subsection \<open>The observable state\<close>

text \<open>
  The cache store, the number of thunk invocations made so far, and the delays (in
  milliseconds) handed to \<^verbatim>\<open>setTimeout\<close> for the backoff waits so far, oldest first.
\<close>

record world =
  store :: cache_store
  calls :: nat
  waits :: "nat list"

subsection \<open>\<^verbatim>\<open>withTimeout\<close> (tools.ts, lines 6 to 25)\<close>

text \<open>
  \<^verbatim>\<open>Promise.race([promise, timeoutPromise])\<close>: the promise's own settlement when it comes
  first, the timer's rejection otherwise. The race always settles.
\<close>

definition timeout_error :: "string \<Rightarrow> nat \<Rightarrow> js_error" where
  "timeout_error operation timeoutMs =
     js_Error (operation @ '' timed out after '' @ string_of_nat timeoutMs @ ''ms'')"

definition withTimeout :: "'a outcome \<Rightarrow> nat \<Rightarrow> string \<Rightarrow> js_error + 'a" where
  "withTimeout promise timeoutMs operation =
     (case promise of
        Fulfils v \<Rightarrow> Inr v
      | Rejects error \<Rightarrow> Inl error
      | Pending \<Rightarrow> Inl (timeout_error operation timeoutMs))"

subsection \<open>\<^verbatim>\<open>makeApiCallWithRetry\<close> (tools.ts, lines 28 to 53)\<close>

text \<open>
  The classifier of lines 39 to 42. A JavaScript operand of \<^verbatim>\<open>&&\<close> counts as true when
  it is defined and, for a string, not empty.
\<close>

definition isRetryableError :: "js_error \<Rightarrow> bool" where
  "isRetryableError error =
     ((case response error of
         None \<Rightarrow> False
       | Some r \<Rightarrow> statusCode r = Some 429)
      \<or> (case message error of
            None \<Rightarrow> False
          | Some m \<Rightarrow> m \<noteq> [] \<and> str_includes m ''timeout'')
      \<or> (case code error of
            None \<Rightarrow> False
          | Some c \<Rightarrow> c \<noteq> [] \<and> List.member [''ECONNRESET'', ''ENOTFOUND'', ''ETIMEDOUT''] c))"

function makeApiCallWithRetry ::
  "(nat \<Rightarrow> 'a outcome) \<Rightarrow> string \<Rightarrow> int \<Rightarrow> nat \<Rightarrow> nat \<Rightarrow> world \<Rightarrow> (js_error + 'a) \<times> world"
where
  "makeApiCallWithRetry apiCallFn operation retries delay timeoutMs w =
     (case withTimeout (apiCallFn (calls w)) timeoutMs operation of
        Inr v \<Rightarrow> (Inr v, w\<lparr>calls := calls w + 1\<rparr>)
      | Inl error \<Rightarrow>
          if isRetryableError error \<and> retries > 0
          then makeApiCallWithRetry apiCallFn operation (retries - 1) (delay * 2) timeoutMs
                 (w\<lparr>calls := calls w + 1, waits := waits w @ [delay]\<rparr>)
          else (Inl error, w\<lparr>calls := calls w + 1\<rparr>))"
  by pat_completeness auto
termination
  by (relation "measure (\<lambda>(apiCallFn, operation, retries, delay, timeoutMs, w). nat retries)") auto

declare makeApiCallWithRetry.simps [simp del]

subsection \<open>The handler's timeout test (tools.ts, line 390)\<close>

text \<open>
  What the flight-search handler takes for a timeout when it words its reply:
  \<^verbatim>\<open>errorMessage.includes('timed out') || errorMessage.includes('timeout')\<close>.
\<close>

definition isTimeout :: "string \<Rightarrow> bool" where
  "isTimeout errorMessage =
     (str_includes errorMessage ''timed out'' \<or> str_includes errorMessage ''timeout'')"

subsection \<open>\<^verbatim>\<open>cachedApiCall\<close> (index.ts, lines 48 to 73)\<close>

text \<open>
  The lookup happens at time \<open>now\<close>, the thunk settles \<open>dt\<close> later. The plain version
  awaits the thunk itself, so a thunk that never settles leaves the call pending: the
  result \<open>None\<close>.
\<close>

definition cachedApiCall ::
  "string \<Rightarrow> nat \<Rightarrow> (nat \<Rightarrow> js_value outcome) \<Rightarrow> nat \<Rightarrow> nat \<Rightarrow> world
     \<Rightarrow> (js_error + js_value) option \<times> world"
where
  "cachedApiCall cacheKey ttl apiCall now dt w =
     (let cachedResponse = or_undefined (cache_get (store w) now cacheKey) in
      if truthy cachedResponse then (Some (Inr cachedResponse), w)
      else
        (case apiCall (calls w) of
           Fulfils response' \<Rightarrow>
             (Some (Inr response'),
              w\<lparr>calls := calls w + 1,
                store := cache_set (store w) (now + dt) cacheKey response' ttl\<rparr>)
         | Rejects error \<Rightarrow> (Some (Inl error), w\<lparr>calls := calls w + 1\<rparr>)
         | Pending \<Rightarrow> (None, w\<lparr>calls := calls w + 1\<rparr>)))"

text \<open>
  The version with timeout protection, of the second copy of index.ts in the sources
  (server version 1.1.3): the thunk is raced against a timer of \<open>timeoutMs\<close>, whose
  rejection carries the cache key in its message.
\<close>

definition cachedApiCall_timeout ::
  "string \<Rightarrow> nat \<Rightarrow> (nat \<Rightarrow> js_value outcome) \<Rightarrow> nat \<Rightarrow> nat \<Rightarrow> nat \<Rightarrow> world
     \<Rightarrow> (js_error + js_value) \<times> world"
where
  "cachedApiCall_timeout cacheKey ttl apiCall timeoutMs now dt w =
     (let cachedResponse = or_undefined (cache_get (store w) now cacheKey) in
      if truthy cachedResponse then (Inr cachedResponse, w)
      else
        (case apiCall (calls w) of
           Fulfils response' \<Rightarrow>
             (Inr response',
              w\<lparr>calls := calls w + 1,
                store := cache_set (store w) (now + dt) cacheKey response' ttl\<rparr>)
         | Rejects error \<Rightarrow> (Inl error, w\<lparr>calls := calls w + 1\<rparr>)
         | Pending \<Rightarrow>
             (Inl (js_Error (''API call for '' @ cacheKey @ '' timed out after ''
                              @ string_of_nat timeoutMs @ ''ms'')),
              w\<lparr>calls := calls w + 1\<rparr>)))"

subsection \<open>Sample inputs\<close>

text \<open>
  A thunk that settles the same way at every invocation, the state of a fresh process,
  and two failures of the shape the Amadeus SDK rejects with: a rate-limit response
  (HTTP 429) and a not-found response (HTTP 404).
\<close>

definition always :: "'a outcome \<Rightarrow> nat \<Rightarrow> 'a outcome" where
  "always x k = x"

definition fresh_world :: world where
  "fresh_world = \<lparr>store = Map.empty, calls = 0, waits = []\<rparr>"

definition rate_limited :: js_error where
  "rate_limited =
     \<lparr>response = Some \<lparr>statusCode = Some 429\<rparr>, message = None, code = Some ''ClientError''\<rparr>"

definition not_found :: js_error where
  "not_found =
     \<lparr>response = Some \<lparr>statusCode = Some 404\<rparr>, message = None, code = Some ''NotFoundError''\<rparr>"

text \<open>
  Two states of the store at time 0: the key \<open>k\<close> holds the number 0, or an object, each
  for 600 time units.
\<close>

definition stale_zero :: world where
  "stale_zero = fresh_world\<lparr>store := cache_set Map.empty 0 ''k'' (JNum 0) 600\<rparr>"

definition warm :: world where
  "warm = fresh_world\<lparr>store := cache_set Map.empty 0 ''k'' (JObj ''cached'') 600\<rparr>"

section \<open>Strings: the executable tests against their specifications\<close>

lemma str_startsWith_prefix: "str_startsWith s t \<longleftrightarrow> prefix t s"
  by (induction s t rule: str_startsWith.induct) auto

lemma str_includes_sublist: "str_includes s t \<longleftrightarrow> sublist t s"
  by (induction s) (auto simp: str_startsWith_prefix sublist_Cons_right)

text \<open>
  A text that does not contain the character \<open>c\<close> occurs in \<open>a @ c # b\<close> only inside
  \<open>a\<close> or inside \<open>b\<close>.
\<close>

lemma sublist_skip_char:
  assumes "c \<notin> set x"
  shows "sublist x (a @ c # b) \<longleftrightarrow> sublist x a \<or> sublist x b"
proof
  assume "sublist x (a @ c # b)"
  then consider "sublist x a" | "sublist x (c # b)"
    | x1 x2 where "x = x1 @ x2" "suffix x1 a" "prefix x2 (c # b)"
    by (auto simp: sublist_append)
  then show "sublist x a \<or> sublist x b"
  proof cases
    case 1
    then show ?thesis by simp
  next
    case 2
    then have "prefix x (c # b) \<or> sublist x b"
      by (simp add: sublist_Cons_right)
    moreover have "prefix x (c # b) \<Longrightarrow> x = []"
      using assms by (cases x) auto
    ultimately show ?thesis by auto
  next
    case 3
    have "x2 = []"
    proof (cases x2)
      case Nil
      then show ?thesis .
    next
      case (Cons y ys)
      with 3(3) have "y = c" by simp
      with Cons 3(1) assms show ?thesis by simp
    qed
    with 3 have "suffix x a" by simp
    then show ?thesis by auto
  qed
next
  assume "sublist x a \<or> sublist x b"
  then show "sublist x (a @ c # b)"
    by (auto simp: sublist_append sublist_Cons_right)
qed

lemma digit_char_range:
  assumes "d < 10"
  shows "of_char (digit_char d) < (58::nat)"
proof -
  have "digit_char d \<in> set ''0123456789''"
    unfolding digit_char_def using assms by (intro nth_mem) simp
  then show ?thesis by auto
qed

lemma string_of_nat_digits: "c \<in> set (string_of_nat n) \<Longrightarrow> of_char c < (58::nat)"
proof (induction n arbitrary: c rule: string_of_nat.induct)
  case (1 n)
  show ?case
  proof (cases "n < 10")
    case True
    with "1.prems" have "c = digit_char n"
      by (simp add: string_of_nat.simps [of n])
    with True show ?thesis by (simp add: digit_char_range)
  next
    case False
    with "1.prems" have "c \<in> set (string_of_nat (n div 10)) \<or> c = digit_char (n mod 10)"
      by (auto simp add: string_of_nat.simps [of n])
    then show ?thesis
    proof
      assume "c \<in> set (string_of_nat (n div 10))"
      with "1.IH" False show ?thesis by simp
    next
      assume "c = digit_char (n mod 10)"
      moreover have "n mod 10 < 10" by simp
      ultimately show ?thesis by (simp add: digit_char_range)
    qed
  qed
qed

text \<open>
  The message of the timer's rejection: \<open>timeout\<close> occurs in it only where it occurs in
  the operation name, since the words that follow spell \<open>timed out\<close>.
\<close>

lemma timeout_not_in_tail:
  "\<not> sublist ''timeout'' (string_of_nat n @ ''ms'')"
proof
  assume "sublist ''timeout'' (string_of_nat n @ ''ms'')"
  then have "set ''timeout'' \<subseteq> set (string_of_nat n @ ''ms'')"
    by (rule set_mono_sublist)
  then have "CHR ''t'' \<in> set (string_of_nat n) \<or> CHR ''t'' \<in> set ''ms''"
    by auto
  then have "CHR ''t'' \<in> set (string_of_nat n)" by simp
  then have "of_char (CHR ''t'') < (58::nat)" by (rule string_of_nat_digits)
  then show False by simp
qed

lemma short_no_timeout: "length s < 7 \<Longrightarrow> \<not> sublist ''timeout'' s"
  using sublist_length_le [of "''timeout''" s] by auto

lemma timeout_message_includes:
  "sublist ''timeout'' (operation @ '' timed out after '' @ string_of_nat n @ ''ms'')
     \<longleftrightarrow> sublist ''timeout'' operation"
proof -
  have sp: "CHR '' '' \<notin> set ''timeout''" by simp
  have "operation @ '' timed out after '' @ string_of_nat n @ ''ms''
          = operation @ CHR '' '' # (''timed'' @ CHR '' '' # (''out'' @ CHR '' '' # (''after'' @ CHR '' '' # (string_of_nat n @ ''ms''))))"
    by simp
  then show ?thesis
    using timeout_not_in_tail [of n]
    by (simp only: sublist_skip_char [OF sp] short_no_timeout) (simp add: short_no_timeout)
qed

lemma timeout_error_retryable:
  "isRetryableError (timeout_error operation timeoutMs) \<longleftrightarrow> str_includes operation ''timeout''"
  using timeout_message_includes [of operation timeoutMs]
  by (auto simp add: isRetryableError_def timeout_error_def js_Error_def str_includes_sublist)

section \<open>The retry loop, one attempt at a time\<close>

lemma retry_ok:
  "withTimeout (apiCallFn (calls w)) timeoutMs operation = Inr v \<Longrightarrow>
   makeApiCallWithRetry apiCallFn operation retries delay timeoutMs w
     = (Inr v, w\<lparr>calls := calls w + 1\<rparr>)"
  by (simp add: makeApiCallWithRetry.simps [of apiCallFn operation retries delay timeoutMs w])

lemma retry_again:
  "withTimeout (apiCallFn (calls w)) timeoutMs operation = Inl e \<Longrightarrow>
   isRetryableError e \<Longrightarrow> 0 < retries \<Longrightarrow>
   makeApiCallWithRetry apiCallFn operation retries delay timeoutMs w
     = makeApiCallWithRetry apiCallFn operation (retries - 1) (delay * 2) timeoutMs
         (w\<lparr>calls := calls w + 1, waits := waits w @ [delay]\<rparr>)"
  by (simp add: makeApiCallWithRetry.simps [of apiCallFn operation retries delay timeoutMs w])

lemma retry_stop:
  "withTimeout (apiCallFn (calls w)) timeoutMs operation = Inl e \<Longrightarrow>
   \<not> (isRetryableError e \<and> 0 < retries) \<Longrightarrow>
   makeApiCallWithRetry apiCallFn operation retries delay timeoutMs w
     = (Inl e, w\<lparr>calls := calls w + 1\<rparr>)"
  by (auto simp add: makeApiCallWithRetry.simps [of apiCallFn operation retries delay timeoutMs w])

lemma retry_store:
  "store (snd (makeApiCallWithRetry apiCallFn operation retries delay timeoutMs w)) = store w"
proof (induction apiCallFn operation retries delay timeoutMs w rule: makeApiCallWithRetry.induct)
  case (1 apiCallFn operation retries delay timeoutMs w)
  show ?case
  proof (cases "withTimeout (apiCallFn (calls w)) timeoutMs operation")
    case (Inr v)
    then show ?thesis by (simp add: retry_ok)
  next
    case (Inl e)
    show ?thesis
    proof (cases "isRetryableError e \<and> 0 < retries")
      case True
      with Inl "1.IH" [of e] show ?thesis by (simp add: retry_again)
    next
      case False
      with Inl show ?thesis by (simp add: retry_stop)
    qed
  qed
qed

lemma upt_map_shift: "map f [0..<Suc m] = f 0 # map (\<lambda>k. f (Suc k)) [0..<m]"
  by (simp only: upt_conv_Cons [of 0 "Suc m"] map_Suc_upt [symmetric]) simp

lemma retry_trace:
  "\<exists>m. int m \<le> max 0 retries
     \<and> calls (snd (makeApiCallWithRetry apiCallFn operation retries delay timeoutMs w)) = calls w + m + 1
     \<and> waits (snd (makeApiCallWithRetry apiCallFn operation retries delay timeoutMs w))
         = waits w @ map (\<lambda>k. delay * 2 ^ k) [0..<m]"
proof (induction apiCallFn operation retries delay timeoutMs w rule: makeApiCallWithRetry.induct)
  case (1 apiCallFn operation retries delay timeoutMs w)
  let ?run = "makeApiCallWithRetry apiCallFn operation retries delay timeoutMs w"
  show ?case
  proof (cases "withTimeout (apiCallFn (calls w)) timeoutMs operation")
    case (Inr v)
    then have "?run = (Inr v, w\<lparr>calls := calls w + 1\<rparr>)" by (rule retry_ok)
    then show ?thesis by (intro exI [of _ 0]) simp
  next
    case (Inl e)
    show ?thesis
    proof (cases "isRetryableError e \<and> 0 < retries")
      case False
      with Inl have "?run = (Inl e, w\<lparr>calls := calls w + 1\<rparr>)" by (rule retry_stop)
      then show ?thesis by (intro exI [of _ 0]) simp
    next
      case True
      let ?w' = "w\<lparr>calls := calls w + 1, waits := waits w @ [delay]\<rparr>"
      let ?next = "makeApiCallWithRetry apiCallFn operation (retries - 1) (delay * 2) timeoutMs ?w'"
      from Inl True have eq: "?run = ?next" by (simp add: retry_again)
      from "1.IH" [OF Inl True] obtain m where
        m: "int m \<le> max 0 (retries - 1)"
           "calls (snd ?next) = calls ?w' + m + 1"
           "waits (snd ?next) = waits ?w' @ map (\<lambda>k. (delay * 2) * 2 ^ k) [0..<m]"
        by blast
      have "int (Suc m) \<le> max 0 retries" using m(1) True by simp
      moreover have "calls (snd ?run) = calls w + Suc m + 1" using m(2) eq by simp
      moreover have "map (\<lambda>k. delay * 2 ^ k) [0..<Suc m]
                       = delay # map (\<lambda>k. (delay * 2) * 2 ^ k) [0..<m]"
        by (simp only: upt_map_shift [of "\<lambda>k. delay * 2 ^ k"]) (simp add: mult.assoc)
      then have "waits (snd ?run) = waits w @ map (\<lambda>k. delay * 2 ^ k) [0..<Suc m]"
        using m(3) eq by (simp only:) simp
      ultimately show ?thesis by blast
    qed
  qed
qed

section \<open>Bounded retry\<close>

text \<open>
  When every attempt fails with a retryable failure, the loop runs down its whole budget:
  \<open>m\<close> retries mean \<open>m + 1\<close> invocations and the delays \<open>delay\<close>, \<open>2 * delay\<close>, ...
\<close>

lemma always_transient_run:
  assumes "\<forall>k. \<exists>e. withTimeout (apiCallFn k) timeoutMs operation = Inl e \<and> isRetryableError e"
  shows "makeApiCallWithRetry apiCallFn operation (int m) delay timeoutMs w
           = (withTimeout (apiCallFn (calls w + m)) timeoutMs operation,
              w\<lparr>calls := calls w + m + 1,
                waits := waits w @ map (\<lambda>k. delay * 2 ^ k) [0..<m]\<rparr>)"
proof (induction m arbitrary: w delay)
  case 0
  from assms obtain e where
    e: "withTimeout (apiCallFn (calls w)) timeoutMs operation = Inl e"
    by blast
  then show ?case by (simp add: retry_stop)
next
  case (Suc m)
  from assms obtain e where
    e: "withTimeout (apiCallFn (calls w)) timeoutMs operation = Inl e" "isRetryableError e"
    by blast
  let ?w' = "w\<lparr>calls := calls w + 1, waits := waits w @ [delay]\<rparr>"
  have "makeApiCallWithRetry apiCallFn operation (int (Suc m)) delay timeoutMs w
          = makeApiCallWithRetry apiCallFn operation (int m) (delay * 2) timeoutMs ?w'"
    using retry_again [of apiCallFn w timeoutMs operation e "int (Suc m)" delay] e by simp
  also have "\<dots> = (withTimeout (apiCallFn (calls ?w' + m)) timeoutMs operation,
                    ?w'\<lparr>calls := calls ?w' + m + 1,
                       waits := waits ?w' @ map (\<lambda>k. (delay * 2) * 2 ^ k) [0..<m]\<rparr>)"
    by (rule Suc.IH)
  also have "map (\<lambda>k. (delay * 2) * 2 ^ k) [0..<m] = map (\<lambda>k. delay * 2 ^ Suc k) [0..<m]"
    by (simp add: mult.assoc)
  finally show ?case
    by (simp only: upt_map_shift [of "\<lambda>k. delay * 2 ^ k"]) simp
qed

text \<open>
  Claim C2. For a retry budget \<open>n \<ge> 0\<close> and a thunk each of whose attempts fails with a
  failure that the classifier takes for retryable, \<open>makeApiCallWithRetry\<close> invokes the
  thunk exactly \<open>n + 1\<close> times and then rejects with the failure of the last attempt.
  Whatever the thunk does, it is invoked at most \<open>n + 1\<close> times.
\<close>

theorem executor_attempts_exactly_retries_plus_one:
  assumes "0 \<le> n"
    and "\<forall>k. \<exists>e. withTimeout (apiCallFn k) timeoutMs operation = Inl e \<and> isRetryableError e"
  shows "makeApiCallWithRetry apiCallFn operation n delay timeoutMs w
           = (withTimeout (apiCallFn (calls w + nat n)) timeoutMs operation,
              w\<lparr>calls := calls w + nat n + 1,
                waits := waits w @ map (\<lambda>k. delay * 2 ^ k) [0..<nat n]\<rparr>)
         \<and> calls (snd (makeApiCallWithRetry other operation n delay timeoutMs w))
             \<le> calls w + nat n + 1"
proof
  from assms(1) have n: "n = int (nat n)" by simp
  show "makeApiCallWithRetry apiCallFn operation n delay timeoutMs w
           = (withTimeout (apiCallFn (calls w + nat n)) timeoutMs operation,
              w\<lparr>calls := calls w + nat n + 1,
                waits := waits w @ map (\<lambda>k. delay * 2 ^ k) [0..<nat n]\<rparr>)"
    using always_transient_run [OF assms(2), of "nat n" delay w] n by simp
  from retry_trace [of n other operation delay timeoutMs w] obtain m where
    "int m \<le> max 0 n"
    "calls (snd (makeApiCallWithRetry other operation n delay timeoutMs w)) = calls w + m + 1"
    by blast
  then show "calls (snd (makeApiCallWithRetry other operation n delay timeoutMs w))
               \<le> calls w + nat n + 1"
    using assms(1) by simp
qed

lemma rate_limited_retryable: "isRetryableError rate_limited"
  by (simp add: isRetryableError_def rate_limited_def)

lemma not_found_terminal: "\<not> isRetryableError not_found"
  by (simp add: isRetryableError_def not_found_def)

theorem executor_attempts_exactly_retries_plus_one_witness:
  "(0::int) \<le> 2
   \<and> makeApiCallWithRetry (always (Rejects rate_limited)) ''Flight search'' 2 1000 25000 fresh_world
       = (Inl rate_limited :: js_error + js_value, \<lparr>store = Map.empty, calls = 3, waits = [1000, 2000]\<rparr>)"
proof -
  have h: "\<forall>k. \<exists>e. withTimeout (always (Rejects rate_limited :: js_value outcome) k) 25000 ''Flight search'' = Inl e
              \<and> isRetryableError e"
    by (simp add: always_def withTimeout_def rate_limited_retryable)
  have r: "withTimeout (always (Rejects rate_limited :: js_value outcome) k) 25000 ''Flight search''
             = Inl rate_limited" for k
    by (simp add: always_def withTimeout_def)
  have "[0..<nat 2] = [0, 1]"
    by (simp add: upt_rec)
  then show ?thesis
    using executor_attempts_exactly_retries_plus_one
            [OF _ h, where n = 2 and delay = 1000 and w = fresh_world
               and other = "always (Rejects rate_limited :: js_value outcome)"]
    by (simp add: fresh_world_def r numeral_3_eq_3)
qed

section \<open>Timeouts under the retry loop\<close>

text \<open>
  An attempt whose thunk is still pending when the timer fires fails with the timer's
  rejection. Its message reads \<open>timed out\<close>, the classifier looks for \<open>timeout\<close>: unless
  the operation name itself contains that word, the failure is not retryable and the loop
  stops at once, whatever budget is left.
\<close>

lemma string_of_nat_25000: "string_of_nat 25000 = ''25000''"
  by (simp add: string_of_nat.simps digit_char_def)

lemma timed_out_attempt_not_retried:
  assumes "apiCallFn (calls w) = Pending"
    and "\<not> str_includes operation ''timeout''"
  shows "makeApiCallWithRetry apiCallFn operation retries delay timeoutMs w
           = (Inl (timeout_error operation timeoutMs), w\<lparr>calls := calls w + 1\<rparr>)"
proof -
  have "withTimeout (apiCallFn (calls w)) timeoutMs operation
          = Inl (timeout_error operation timeoutMs)"
    using assms(1) by (simp add: withTimeout_def)
  moreover have "\<not> isRetryableError (timeout_error operation timeoutMs)"
    using assms(2) by (simp add: timeout_error_retryable)
  ultimately show ?thesis by (simp add: retry_stop)
qed

text \<open>
  Claim C1. The claim has a timed-out attempt classified as retryable and retried while
  budget remains. At the flight-search call site (operation \<open>Flight search\<close>, 2 retries,
  1000 ms initial delay, 25000 ms timeout) with a thunk that never settles, the attempt
  does fail with the timer's rejection, but that failure is not retryable, and the call
  rejects with it after a single invocation and no backoff wait.
\<close>

theorem flight_search_timeout_is_not_retried:
  "withTimeout (always Pending 0 :: js_value outcome) 25000 ''Flight search''
     = Inl (js_Error ''Flight search timed out after 25000ms'')
   \<and> \<not> isRetryableError (js_Error ''Flight search timed out after 25000ms'')
   \<and> makeApiCallWithRetry (always Pending) ''Flight search'' 2 1000 25000 fresh_world
       = (Inl (js_Error ''Flight search timed out after 25000ms'') :: js_error + js_value,
          fresh_world\<lparr>calls := 1\<rparr>)"
proof -
  have m: "timeout_error ''Flight search'' 25000
             = js_Error ''Flight search timed out after 25000ms''"
    by (simp add: timeout_error_def string_of_nat_25000)
  have n: "\<not> str_includes ''Flight search'' ''timeout''"
    by simp
  have p: "always (Pending :: js_value outcome) (calls fresh_world) = Pending"
    by (simp add: always_def)
  show ?thesis
    using timed_out_attempt_not_retried
            [where apiCallFn = "always (Pending :: js_value outcome)" and w = fresh_world
               and operation = "''Flight search''" and retries = 2 and delay = 1000
               and timeoutMs = 25000, OF p n]
      timeout_error_retryable [of "''Flight search''" 25000] n
    by (simp add: m withTimeout_def always_def fresh_world_def)
qed

section \<open>Backoff\<close>

text \<open>
  Claim C3. In every run of \<open>makeApiCallWithRetry\<close> the backoff delays are, in order,
  \<open>delay * 2 ^ k\<close> for \<open>k = 0, 1, ...\<close>, one for each attempt but the last: the wait before
  attempt \<open>k + 1\<close> is \<open>delay * 2 ^ k\<close>. (A delay is the number handed to \<^verbatim>\<open>setTimeout\<close>.)
\<close>

theorem backoff_delays_double:
  "waits (snd (makeApiCallWithRetry apiCallFn operation retries delay timeoutMs w))
     = waits w @ map (\<lambda>k. delay * 2 ^ k)
         [0..<calls (snd (makeApiCallWithRetry apiCallFn operation retries delay timeoutMs w))
                - calls w - 1]"
proof -
  from retry_trace [of retries apiCallFn operation delay timeoutMs w] obtain m where
    "calls (snd (makeApiCallWithRetry apiCallFn operation retries delay timeoutMs w))
       = calls w + m + 1"
    "waits (snd (makeApiCallWithRetry apiCallFn operation retries delay timeoutMs w))
       = waits w @ map (\<lambda>k. delay * 2 ^ k) [0..<m]"
    by blast
  then show ?thesis by simp
qed

theorem backoff_delays_double_witness:
  "waits (snd (makeApiCallWithRetry (always (Rejects rate_limited :: js_value outcome))
                 ''Flight search'' 2 1000 25000 fresh_world))
     = [1000, 2000]"
proof -
  have h: "\<forall>k. \<exists>e. withTimeout (always (Rejects rate_limited :: js_value outcome) k) 25000 ''Flight search'' = Inl e
              \<and> isRetryableError e"
    by (simp add: always_def withTimeout_def rate_limited_retryable)
  have c: "calls (snd (makeApiCallWithRetry (always (Rejects rate_limited :: js_value outcome))
                 ''Flight search'' 2 1000 25000 fresh_world)) = 3"
    using always_transient_run [OF h, of 2 1000 fresh_world]
    by (simp add: fresh_world_def)
  have w0: "waits fresh_world = []" "calls fresh_world = 0"
    by (simp_all add: fresh_world_def)
  have "[0..<2] = [0, Suc 0]"
    by (simp add: upt_rec)
  then show ?thesis
    using backoff_delays_double [of "always (Rejects rate_limited :: js_value outcome)"
        "''Flight search''" 2 1000 25000 fresh_world]
    by (simp add: c w0)
qed

section \<open>Terminal failures\<close>

text \<open>
  Claim C4. When the first invocation of the thunk rejects with a failure that is not
  retryable, \<open>makeApiCallWithRetry\<close> rejects with that failure after this one invocation,
  with no backoff wait, whatever the retry budget.
\<close>

theorem terminal_failure_propagates_at_once:
  assumes "apiCallFn (calls w) = Rejects e"
    and "\<not> isRetryableError e"
  shows "makeApiCallWithRetry apiCallFn operation retries delay timeoutMs w
           = (Inl e, w\<lparr>calls := calls w + 1\<rparr>)"
proof -
  from assms(1) have "withTimeout (apiCallFn (calls w)) timeoutMs operation = Inl e"
    by (simp add: withTimeout_def)
  with assms(2) show ?thesis by (simp add: retry_stop)
qed

theorem terminal_failure_propagates_at_once_witness:
  "\<not> isRetryableError not_found
   \<and> makeApiCallWithRetry (always (Rejects not_found)) ''Flight search'' 2 1000 25000 fresh_world
       = (Inl not_found :: js_error + js_value, fresh_world\<lparr>calls := 1\<rparr>)"
proof -
  have a: "always (Rejects not_found :: js_value outcome) (calls fresh_world) = Rejects not_found"
    by (simp add: always_def)
  show ?thesis
    using terminal_failure_propagates_at_once
            [where apiCallFn = "always (Rejects not_found :: js_value outcome)"
               and w = fresh_world and e = not_found and operation = "''Flight search''"
               and retries = 2 and delay = 1000 and timeoutMs = 25000, OF a not_found_terminal]
    by (simp add: not_found_terminal fresh_world_def)
qed

section \<open>Classification\<close>

text \<open>
  The extent of the classifier: a failure is retryable iff its response carries the
  status code 429, or its message contains the text \<open>timeout\<close>, or its code is one of
  \<open>ECONNRESET\<close>, \<open>ENOTFOUND\<close> and \<open>ETIMEDOUT\<close>.
\<close>

lemma isRetryableError_iff:
  "isRetryableError e \<longleftrightarrow>
     (\<exists>r. response e = Some r \<and> statusCode r = Some 429)
     \<or> (\<exists>m. message e = Some m \<and> sublist ''timeout'' m)
     \<or> (\<exists>c. code e = Some c \<and> c \<in> {''ECONNRESET'', ''ENOTFOUND'', ''ETIMEDOUT''})"
proof -
  have "sublist ''timeout'' m \<Longrightarrow> m \<noteq> []" for m :: string
    by auto
  then show ?thesis
    unfolding isRetryableError_def str_includes_sublist
    by (auto split: option.splits)
qed

text \<open>
  The message of every rejection that \<open>withTimeout\<close> produces passes the handler's
  timeout test, through the words \<open>timed out\<close>.
\<close>

lemma timeout_error_isTimeout:
  "isTimeout (operation @ '' timed out after '' @ string_of_nat timeoutMs @ ''ms'')"
proof -
  have "operation @ '' timed out after '' @ string_of_nat timeoutMs @ ''ms''
          = (operation @ '' '') @ ''timed out'' @ ('' after '' @ string_of_nat timeoutMs @ ''ms'')"
    by simp
  then have "sublist ''timed out''
               (operation @ '' timed out after '' @ string_of_nat timeoutMs @ ''ms'')"
    by (simp only: sublist_appendI)
  then show ?thesis
    by (simp only: isTimeout_def str_includes_sublist simp_thms)
qed

text \<open>
  Claim C8. The claim has a failure classified as transient whenever its message
  indicates a timeout. At the hotel-offers call site (operation \<open>Hotel offers search\<close>,
  25000 ms timeout) a thunk that does not settle in time makes \<open>withTimeout\<close> reject with
  a message that the handler's own timeout test accepts; the classifier, which looks for
  \<open>timeout\<close> only, takes this failure for terminal.
\<close>

theorem timed_out_message_is_classified_terminal:
  "withTimeout (Pending :: js_value outcome) 25000 ''Hotel offers search''
     = Inl (js_Error ''Hotel offers search timed out after 25000ms'')
   \<and> isTimeout ''Hotel offers search timed out after 25000ms''
   \<and> \<not> isRetryableError (js_Error ''Hotel offers search timed out after 25000ms'')"
proof -
  have m: "timeout_error ''Hotel offers search'' 25000
             = js_Error ''Hotel offers search timed out after 25000ms''"
    by (simp add: timeout_error_def string_of_nat_25000)
  have n: "\<not> str_includes ''Hotel offers search'' ''timeout''"
    by simp
  have t: "isTimeout ''Hotel offers search timed out after 25000ms''"
    by (simp add: isTimeout_def)
  from n have "\<not> isRetryableError (timeout_error ''Hotel offers search'' 25000)"
    by (simp add: timeout_error_retryable)
  with m t show ?thesis
    by (simp add: withTimeout_def)
qed

section \<open>The cache store\<close>

lemma cache_set_get:
  "cache_get (cache_set st t0 key v ttl) now key' =
     (if key' = key then (if now < t0 + ttl then Some v else None) else cache_get st now key')"
  by (simp add: cache_get_def cache_set_def expired_def)

text \<open>
  Claim C7. For every key, \<open>get\<close> returns the stored value when the store holds an
  unexpired entry for the key, and returns absent, as an ordinary result and not as an
  error, when it holds no entry or an entry whose expiration time has been reached. An
  entry stored by \<open>put\<close> at time \<open>t0\<close> with \<open>ttl\<close> is returned exactly while
  \<open>now < t0 + ttl\<close>.
\<close>

theorem cache_get_returns_unexpired_only:
  "(\<forall>e. st key = Some e \<and> now < expiresAt e \<longrightarrow> cache_get st now key = Some (val e))
   \<and> (st key = None \<longrightarrow> cache_get st now key = None)
   \<and> (\<forall>e. st key = Some e \<and> expiresAt e \<le> now \<longrightarrow> cache_get st now key = None)
   \<and> cache_get (cache_set st t0 key v ttl) now key = (if now < t0 + ttl then Some v else None)"
  by (simp add: cache_get_def expired_def cache_set_def)

theorem cache_get_returns_unexpired_only_witness:
  "cache_get (cache_set Map.empty 100 ''k'' (JObj ''{}'') 600) 699 ''k'' = Some (JObj ''{}'')
   \<and> cache_get (cache_set Map.empty 100 ''k'' (JObj ''{}'') 600) 700 ''k'' = None
   \<and> cache_get (cache_set Map.empty 100 ''k'' (JObj ''{}'') 600) 699 ''other'' = None"
proof -
  let ?st = "cache_set Map.empty 100 ''k'' (JObj ''{}'') 600"
  let ?e = "\<lparr>val = JObj ''{}'', expiresAt = 700\<rparr>"
  have k: "?st ''k'' = Some ?e" and o: "?st ''other'' = None"
    by (simp_all add: cache_set_def)
  from cache_get_returns_unexpired_only [of ?st "''k''" 699 0 JNull 0] k
  have "cache_get ?st 699 ''k'' = Some (val ?e)" by simp
  moreover from cache_get_returns_unexpired_only [of ?st "''k''" 700 0 JNull 0] k
  have "cache_get ?st 700 ''k'' = None" by simp
  moreover from cache_get_returns_unexpired_only [of ?st "''other''" 699 0 JNull 0] o
  have "cache_get ?st 699 ''other'' = None" by simp
  ultimately show ?thesis by simp
qed

section \<open>The cached call\<close>

text \<open>
  Claim C5, amended. When the store holds an unexpired entry for the cache key and the
  stored value is truthy, both versions of \<open>cachedApiCall\<close> return that value and leave
  the state as it is: the thunk is not invoked, no timer result and no wait occur.
\<close>

theorem truthy_hit_skips_the_thunk:
  assumes "cache_get (store w) now cacheKey = Some v"
    and "truthy v"
  shows "cachedApiCall cacheKey ttl apiCall now dt w = (Some (Inr v), w)
         \<and> cachedApiCall_timeout cacheKey ttl apiCall timeoutMs now dt w = (Inr v, w)"
  using assms by (simp add: cachedApiCall_def cachedApiCall_timeout_def or_undefined_def)

theorem truthy_hit_skips_the_thunk_witness:
  "cache_get (store warm) 5 ''k'' = Some (JObj ''cached'')
   \<and> cachedApiCall ''k'' 600 (always (Fulfils (JObj ''fresh''))) 5 1 warm
       = (Some (Inr (JObj ''cached'')), warm)
   \<and> cachedApiCall_timeout ''k'' 600 (always (Fulfils (JObj ''fresh''))) 25000 5 1 warm
       = (Inr (JObj ''cached''), warm)"
proof -
  have g: "cache_get (store warm) 5 ''k'' = Some (JObj ''cached'')"
    by (simp add: warm_def cache_set_get)
  have t: "truthy (JObj ''cached'')" by simp
  show ?thesis
    using truthy_hit_skips_the_thunk [OF g t] g by simp
qed

text \<open>
  Claim C5 as stated, for every unexpired entry, fails on an entry whose value is falsy.
  A first call whose thunk fulfils with the number 0 stores it under \<open>k\<close>; at time 5 the
  entry is unexpired, and yet the next call invokes its thunk and returns the fresh
  response.
\<close>

theorem falsy_entry_counterexample:
  "snd (cachedApiCall ''k'' 600 (always (Fulfils (JNum 0))) 0 0 fresh_world)
     = stale_zero\<lparr>calls := 1\<rparr>
   \<and> cache_get (store stale_zero) 5 ''k'' = Some (JNum 0)
   \<and> fst (cachedApiCall ''k'' 600 (always (Fulfils (JObj ''fresh''))) 5 1 stale_zero)
       = Some (Inr (JObj ''fresh''))
   \<and> calls (snd (cachedApiCall ''k'' 600 (always (Fulfils (JObj ''fresh''))) 5 1 stale_zero)) = 1
   \<and> fst (cachedApiCall_timeout ''k'' 600 (always (Fulfils (JObj ''fresh''))) 25000 5 1 stale_zero)
       = Inr (JObj ''fresh'')
   \<and> calls (snd (cachedApiCall_timeout ''k'' 600 (always (Fulfils (JObj ''fresh''))) 25000 5 1 stale_zero)) = 1"
  by (simp add: stale_zero_def fresh_world_def cachedApiCall_def cachedApiCall_timeout_def
      or_undefined_def always_def cache_get_def cache_set_def expired_def Let_def)

text \<open>
  Claim C6. A cached call whose thunk rejects, or is still pending when the timer fires,
  leaves the cache store exactly as it was: \<open>set\<close> runs only after the thunk fulfilled.
\<close>

theorem failed_call_leaves_store:
  assumes "apiCall (calls w) = Rejects e \<or> apiCall (calls w) = Pending"
  shows "store (snd (cachedApiCall cacheKey ttl apiCall now dt w)) = store w
         \<and> store (snd (cachedApiCall_timeout cacheKey ttl apiCall timeoutMs now dt w)) = store w"
  using assms by (auto simp add: cachedApiCall_def cachedApiCall_timeout_def Let_def)

theorem failed_call_leaves_store_witness:
  "store (snd (cachedApiCall ''k'' 600 (always (Rejects rate_limited)) 5 1 stale_zero))
     = store stale_zero
   \<and> store (snd (cachedApiCall_timeout ''k'' 600 (always Pending) 25000 5 1 stale_zero))
       = store stale_zero
   \<and> calls (snd (cachedApiCall_timeout ''k'' 600 (always Pending) 25000 5 1 stale_zero)) = 1"
proof -
  have a: "always (Rejects rate_limited) (calls stale_zero) = Rejects rate_limited
             \<or> always (Rejects rate_limited :: js_value outcome) (calls stale_zero) = Pending"
    by (simp add: always_def)
  have b: "always Pending (calls stale_zero) = Rejects rate_limited
             \<or> always (Pending :: js_value outcome) (calls stale_zero) = Pending"
    by (simp add: always_def)
  have c: "calls (snd (cachedApiCall_timeout ''k'' 600 (always Pending) 25000 5 1 stale_zero)) = 1"
    by (simp add: stale_zero_def fresh_world_def cache_set_get cachedApiCall_timeout_def
        or_undefined_def always_def)
  show ?thesis
    using failed_call_leaves_store
            [where apiCall = "always (Rejects rate_limited)" and w = stale_zero
               and e = rate_limited and cacheKey = "''k''" and ttl = 600 and now = 5
               and dt = 1 and timeoutMs = 0, OF a]
      failed_call_leaves_store
            [where apiCall = "always Pending" and w = stale_zero
               and e = rate_limited and cacheKey = "''k''" and ttl = 600 and now = 5
               and dt = 1 and timeoutMs = 25000, OF b] c
    by simp
qed

text \<open>
  Claim C9. The hit test is the truthiness of the value read, not the presence of an
  entry. When the unexpired entry of the key holds a falsy value, the call is a miss: it
  invokes the thunk once and its result is the thunk's outcome. If the thunk fulfils, the
  call returns the fresh response and stores it under the key in place of the old entry;
  if it rejects, the call rejects with the same failure and the store is untouched; if it
  is pending, the plain version stays pending and the version with a timer rejects with
  the timer's failure. In each case the result is the one the call has when the store
  holds no entry for the key.
\<close>

theorem falsy_entry_is_a_miss:
  assumes "cache_get (store w) now cacheKey = Some v"
    and "\<not> truthy v"
  shows "(\<forall>r. apiCall (calls w) = Fulfils r \<longrightarrow>
            cachedApiCall cacheKey ttl apiCall now dt w
              = (Some (Inr r),
                 w\<lparr>calls := calls w + 1,
                   store := cache_set (store w) (now + dt) cacheKey r ttl\<rparr>)
            \<and> cachedApiCall_timeout cacheKey ttl apiCall timeoutMs now dt w
              = (Inr r,
                 w\<lparr>calls := calls w + 1,
                   store := cache_set (store w) (now + dt) cacheKey r ttl\<rparr>))
         \<and> (\<forall>e. apiCall (calls w) = Rejects e \<longrightarrow>
            cachedApiCall cacheKey ttl apiCall now dt w
              = (Some (Inl e), w\<lparr>calls := calls w + 1\<rparr>)
            \<and> cachedApiCall_timeout cacheKey ttl apiCall timeoutMs now dt w
              = (Inl e, w\<lparr>calls := calls w + 1\<rparr>))
         \<and> (apiCall (calls w) = Pending \<longrightarrow>
            cachedApiCall cacheKey ttl apiCall now dt w = (None, w\<lparr>calls := calls w + 1\<rparr>)
            \<and> cachedApiCall_timeout cacheKey ttl apiCall timeoutMs now dt w
              = (Inl (js_Error (''API call for '' @ cacheKey @ '' timed out after ''
                                 @ string_of_nat timeoutMs @ ''ms'')),
                 w\<lparr>calls := calls w + 1\<rparr>))
         \<and> calls (snd (cachedApiCall cacheKey ttl apiCall now dt w)) = calls w + 1
         \<and> fst (cachedApiCall cacheKey ttl apiCall now dt w)
             = fst (cachedApiCall cacheKey ttl apiCall now dt (w\<lparr>store := (store w)(cacheKey := None)\<rparr>))
         \<and> calls (snd (cachedApiCall_timeout cacheKey ttl apiCall timeoutMs now dt w)) = calls w + 1
         \<and> fst (cachedApiCall_timeout cacheKey ttl apiCall timeoutMs now dt w)
             = fst (cachedApiCall_timeout cacheKey ttl apiCall timeoutMs now dt
                      (w\<lparr>store := (store w)(cacheKey := None)\<rparr>))"
proof -
  from assms have miss: "\<not> truthy (or_undefined (cache_get (store w) now cacheKey))"
    by (simp add: or_undefined_def)
  have gone: "\<not> truthy (or_undefined (cache_get ((store w)(cacheKey := None)) now cacheKey))"
    by (simp add: or_undefined_def cache_get_def)
  show ?thesis
    using miss gone
    by (cases "apiCall (calls w)") (simp_all add: cachedApiCall_def cachedApiCall_timeout_def)
qed

theorem falsy_entry_is_a_miss_witness:
  "cache_get (store stale_zero) 5 ''k'' = Some (JNum 0) \<and> \<not> truthy (JNum 0)
   \<and> cachedApiCall ''k'' 600 (always (Fulfils (JObj ''fresh''))) 5 1 stale_zero
       = (Some (Inr (JObj ''fresh'')),
          stale_zero\<lparr>calls := 1, store := cache_set (store stale_zero) 6 ''k'' (JObj ''fresh'') 600\<rparr>)
   \<and> cachedApiCall_timeout ''k'' 600 (always (Fulfils (JObj ''fresh''))) 25000 5 1 stale_zero
       = (Inr (JObj ''fresh''),
          stale_zero\<lparr>calls := 1, store := cache_set (store stale_zero) 6 ''k'' (JObj ''fresh'') 600\<rparr>)
   \<and> cache_get (store (snd (cachedApiCall ''k'' 600 (always (Fulfils (JObj ''fresh''))) 5 1 stale_zero)))
         6 ''k'' = Some (JObj ''fresh'')
   \<and> cachedApiCall ''k'' 600 (always (Rejects not_found)) 5 1 stale_zero
       = (Some (Inl not_found), stale_zero\<lparr>calls := 1\<rparr>)"
proof -
  have g: "cache_get (store stale_zero) 5 ''k'' = Some (JNum 0)"
    by (simp add: stale_zero_def cache_set_get)
  have t: "\<not> truthy (JNum 0)" by simp
  have c: "calls stale_zero = 0" by (simp add: stale_zero_def fresh_world_def)
  have f: "always (Fulfils (JObj ''fresh'')) (calls stale_zero) = Fulfils (JObj ''fresh'')"
    and r: "always (Rejects not_found :: js_value outcome) (calls stale_zero) = Rejects not_found"
    by (simp_all add: always_def)
  from falsy_entry_is_a_miss
         [where w = stale_zero and now = 5 and cacheKey = "''k''" and v = "JNum 0"
            and apiCall = "always (Fulfils (JObj ''fresh''))" and ttl = 600 and dt = 1
            and timeoutMs = 25000, OF g t] f c
  have a: "cachedApiCall ''k'' 600 (always (Fulfils (JObj ''fresh''))) 5 1 stale_zero
       = (Some (Inr (JObj ''fresh'')),
          stale_zero\<lparr>calls := 1, store := cache_set (store stale_zero) 6 ''k'' (JObj ''fresh'') 600\<rparr>)"
    and b: "cachedApiCall_timeout ''k'' 600 (always (Fulfils (JObj ''fresh''))) 25000 5 1 stale_zero
       = (Inr (JObj ''fresh''),
          stale_zero\<lparr>calls := 1, store := cache_set (store stale_zero) 6 ''k'' (JObj ''fresh'') 600\<rparr>)"
    by simp_all
  from falsy_entry_is_a_miss
         [where w = stale_zero and now = 5 and cacheKey = "''k''" and v = "JNum 0"
            and apiCall = "always (Rejects not_found)" and ttl = 600 and dt = 1
            and timeoutMs = 25000, OF g t] r c
  have d: "cachedApiCall ''k'' 600 (always (Rejects not_found)) 5 1 stale_zero
       = (Some (Inl not_found), stale_zero\<lparr>calls := 1\<rparr>)"
    by simp
  show ?thesis
    using g a b d by (simp add: cache_set_get)
qed

section \<open>Caching and retrying are separate\<close>

text \<open>
  \<open>makeApiCallWithRetry\<close> neither reads nor writes the cache store; \<open>cachedApiCall\<close>
  never waits and never invokes its thunk a second time. The only call site of
  \<open>cachedApiCall\<close> (the airport search, tools.ts lines 461 to 468) hands it the SDK call
  itself, not a call wrapped in \<open>makeApiCallWithRetry\<close>.
\<close>

lemma retry_store_irrelevant:
  "makeApiCallWithRetry apiCallFn operation retries delay timeoutMs (w\<lparr>store := s\<rparr>)
     = (fst (makeApiCallWithRetry apiCallFn operation retries delay timeoutMs w),
        (snd (makeApiCallWithRetry apiCallFn operation retries delay timeoutMs w))\<lparr>store := s\<rparr>)"
proof (induction apiCallFn operation retries delay timeoutMs w rule: makeApiCallWithRetry.induct)
  case (1 apiCallFn operation retries delay timeoutMs w)
  let ?ws = "w\<lparr>store := s\<rparr>"
  show ?case
  proof (cases "withTimeout (apiCallFn (calls w)) timeoutMs operation")
    case (Inr v)
    then have "withTimeout (apiCallFn (calls ?ws)) timeoutMs operation = Inr v"
      by simp
    then have "makeApiCallWithRetry apiCallFn operation retries delay timeoutMs ?ws
                 = (Inr v, ?ws\<lparr>calls := calls ?ws + 1\<rparr>)"
      by (rule retry_ok)
    moreover from Inr
    have "makeApiCallWithRetry apiCallFn operation retries delay timeoutMs w
            = (Inr v, w\<lparr>calls := calls w + 1\<rparr>)"
      by (rule retry_ok)
    ultimately show ?thesis by simp
  next
    case (Inl e)
    then have Inl': "withTimeout (apiCallFn (calls ?ws)) timeoutMs operation = Inl e"
      by simp
    show ?thesis
    proof (cases "isRetryableError e \<and> 0 < retries")
      case True
      let ?w' = "w\<lparr>calls := calls w + 1, waits := waits w @ [delay]\<rparr>"
      have ih: "makeApiCallWithRetry apiCallFn operation (retries - 1) (delay * 2) timeoutMs
                  (?w'\<lparr>store := s\<rparr>)
                = (fst (makeApiCallWithRetry apiCallFn operation (retries - 1) (delay * 2) timeoutMs ?w'),
                   (snd (makeApiCallWithRetry apiCallFn operation (retries - 1) (delay * 2) timeoutMs ?w'))
                     \<lparr>store := s\<rparr>)"
        using "1.IH" [OF Inl True] .
      have e1: "makeApiCallWithRetry apiCallFn operation retries delay timeoutMs w
                  = makeApiCallWithRetry apiCallFn operation (retries - 1) (delay * 2) timeoutMs ?w'"
        using Inl True by (simp add: retry_again)
      have "makeApiCallWithRetry apiCallFn operation retries delay timeoutMs ?ws
              = makeApiCallWithRetry apiCallFn operation (retries - 1) (delay * 2) timeoutMs
                  (?ws\<lparr>calls := calls ?ws + 1, waits := waits ?ws @ [delay]\<rparr>)"
        using Inl' True by (simp add: retry_again)
      moreover have "?ws\<lparr>calls := calls ?ws + 1, waits := waits ?ws @ [delay]\<rparr> = ?w'\<lparr>store := s\<rparr>"
        by simp
      ultimately show ?thesis
        by (simp only: e1 ih)
    next
      case False
      with Inl have "makeApiCallWithRetry apiCallFn operation retries delay timeoutMs w
                       = (Inl e, w\<lparr>calls := calls w + 1\<rparr>)"
        by (rule retry_stop)
      moreover from Inl' False
      have "makeApiCallWithRetry apiCallFn operation retries delay timeoutMs ?ws
              = (Inl e, ?ws\<lparr>calls := calls ?ws + 1\<rparr>)"
        by (rule retry_stop)
      ultimately show ?thesis by simp
    qed
  qed
qed

text \<open>
  Claim C10. On a cache miss, when the thunk rejects with any failure, retryable or not,
  both versions of \<open>cachedApiCall\<close> reject with that failure after exactly one invocation,
  with no backoff wait and the store unchanged. The retry loop, for its part, runs the
  same whatever the store holds and hands the store back untouched.
\<close>

theorem cached_call_makes_one_attempt:
  assumes "\<not> truthy (or_undefined (cache_get (store w) now cacheKey))"
    and "apiCall (calls w) = Rejects e"
  shows "cachedApiCall cacheKey ttl apiCall now dt w = (Some (Inl e), w\<lparr>calls := calls w + 1\<rparr>)
         \<and> cachedApiCall_timeout cacheKey ttl apiCall timeoutMs now dt w
             = (Inl e, w\<lparr>calls := calls w + 1\<rparr>)
         \<and> makeApiCallWithRetry apiCallFn operation retries delay timeoutMs (w\<lparr>store := s\<rparr>)
             = (fst (makeApiCallWithRetry apiCallFn operation retries delay timeoutMs w),
                (snd (makeApiCallWithRetry apiCallFn operation retries delay timeoutMs w))\<lparr>store := s\<rparr>)"
  using assms
    retry_store_irrelevant [where apiCallFn = apiCallFn and operation = operation
      and retries = retries and delay = delay and timeoutMs = timeoutMs and w = w and s = s]
  by (simp add: cachedApiCall_def cachedApiCall_timeout_def)

theorem cached_call_makes_one_attempt_witness:
  "isRetryableError rate_limited
   \<and> cachedApiCall ''k'' 86400 (always (Rejects rate_limited)) 5 1 fresh_world
       = (Some (Inl rate_limited), fresh_world\<lparr>calls := 1\<rparr>)
   \<and> cachedApiCall_timeout ''k'' 86400 (always (Rejects rate_limited)) 25000 5 1 fresh_world
       = (Inl rate_limited, fresh_world\<lparr>calls := 1\<rparr>)"
proof -
  have m: "\<not> truthy (or_undefined (cache_get (store fresh_world) 5 ''k''))"
    by (simp add: fresh_world_def cache_get_def or_undefined_def)
  have r: "always (Rejects rate_limited) (calls fresh_world) = Rejects rate_limited"
    by (simp add: always_def)
  have c: "calls fresh_world = 0" by (simp add: fresh_world_def)
  show ?thesis
    using cached_call_makes_one_attempt
            [where w = fresh_world and now = 5 and cacheKey = "''k''" and e = rate_limited
               and apiCall = "always (Rejects rate_limited)" and ttl = 86400 and dt = 1
               and timeoutMs = 25000 and apiCallFn = "always (Pending :: js_value outcome)"
               and retries = 0 and operation = "''x''" and delay = 0 and s = Map.empty,
             OF m r]
      rate_limited_retryable c
    by simp
qed

end
